theory Spec2Isabelle
  imports Main "HOL-Library.Char_ord" "HOL-Library.List_Lexorder"
begin

section \<open>Semantic version sort keys (visualize\_downloads.py)\<close>

text \<open>
  Python strings are modelled as \<^typ>\<open>string\<close>, lists of 8-bit characters, compared
  lexicographically by character code as Python compares \<open>str\<close> values. Within that
  range the regular expression class \<open>\d\<close> is exactly \<open>0\<close>..\<open>9\<close>.
\<close>

datatype error = HTTPError nat | ValueError

definition lstrip_v :: "string \<Rightarrow> string" where
  \<comment> \<open>\<open>version.lstrip('v')\<close>: every leading \<open>v\<close> is removed.\<close>
  "lstrip_v version = dropWhile (\<lambda>c. c = CHR ''v'') version"

definition is_digit :: "char \<Rightarrow> bool" where
  "is_digit c = (CHR ''0'' \<le> c \<and> c \<le> CHR ''9'')"

definition is_label_char :: "char \<Rightarrow> bool" where
  \<comment> \<open>the class \<open>[a-zA-Z0-9-]\<close>\<close>
  "is_label_char c =
     ((CHR ''a'' \<le> c \<and> c \<le> CHR ''z'') \<or> (CHR ''A'' \<le> c \<and> c \<le> CHR ''Z'')
      \<or> is_digit c \<or> c = CHR ''-'')"

definition at_end :: "string \<Rightarrow> bool" where
  \<comment> \<open>\<open>$\<close> without the multi-line flag: the end of the string, or just before a final newline.\<close>
  "at_end r = (r = [] \<or> r = [CHR 0x0A])"

definition int_max_str_digits :: nat where
  \<comment> \<open>\<open>sys.get_int_max_str_digits()\<close>, the interpreter's default\<close>
  "int_max_str_digits = 4300"

definition py_int :: "string \<Rightarrow> error + int" where
  \<comment> \<open>\<open>int(...)\<close> of a string of decimal digits: a string of more digits than the
      limit, leading zeros counted, raises \<open>ValueError\<close>\<close>
  "py_int ds =
     (if length ds > int_max_str_digits then Inl ValueError
      else Inr (foldl (\<lambda>a c. 10 * a + (int (of_char c) - 48)) 0 ds))"

record semver_groups =
  group1 :: string
  group2 :: string
  group3 :: string
  group4 :: "string option"
  group5 :: "string option"

definition match_prerelease :: "string \<Rightarrow> (string option \<times> string option) option" where
  \<comment> \<open>the tail \<open>(?:-([a-zA-Z0-9-]+)(?:\.(\d+))?)?$\<close> of the pattern\<close>
  "match_prerelease r =
     (if at_end r then Some (None, None)
      else case r of
        c # r' \<Rightarrow>
          if c = CHR ''-'' then
            (let g4 = takeWhile is_label_char r'; r4 = dropWhile is_label_char r' in
             if g4 = [] then None
             else if at_end r4 then Some (Some g4, None)
             else case r4 of
               d # r4' \<Rightarrow>
                 if d = CHR ''.'' then
                   (let g5 = takeWhile is_digit r4'; r5 = dropWhile is_digit r4' in
                    if g5 = [] then None
                    else if at_end r5 then Some (Some g4, Some g5)
                    else None)
                 else None
             | [] \<Rightarrow> None)
          else None
      | [] \<Rightarrow> None)"

definition dotted_number :: "string \<Rightarrow> (string \<times> string) option" where
  \<comment> \<open>\<open>(\d+)\.\<close>: a maximal, non-empty run of digits followed by a dot\<close>
  "dotted_number s =
     (let g = takeWhile is_digit s in
      if g = [] then None
      else case dropWhile is_digit s of
        c # r \<Rightarrow> if c = CHR ''.'' then Some (g, r) else None
      | [] \<Rightarrow> None)"

definition semver_match :: "string \<Rightarrow> semver_groups option" where
  \<comment> \<open>\<open>re.match(r'^(\d+)\.(\d+)\.(\d+)(?:-([a-zA-Z0-9-]+)(?:\.(\d+))?)?$', version)\<close>\<close>
  "semver_match version =
     (case dotted_number version of
        None \<Rightarrow> None
      | Some (g1, r1) \<Rightarrow>
          (case dotted_number r1 of
             None \<Rightarrow> None
           | Some (g2, r2) \<Rightarrow>
               (let g3 = takeWhile is_digit r2 in
                if g3 = [] then None
                else case match_prerelease (dropWhile is_digit r2) of
                  None \<Rightarrow> None
                | Some (g4, g5) \<Rightarrow>
                    Some \<lparr>group1 = g1, group2 = g2, group3 = g3, group4 = g4, group5 = g5\<rparr>)))"

datatype pynum = PyInt int | PyInf

type_synonym sort_key = "pynum \<times> int \<times> int \<times> int \<times> string \<times> int"

definition parse_semver :: "string \<Rightarrow> error + sort_key" where
  "parse_semver version0 =
     (let version = lstrip_v version0 in
      case semver_match version of
        Some m \<Rightarrow>
          (case py_int (group1 m) of
             Inl e \<Rightarrow> Inl e
           | Inr major \<Rightarrow>
          (case py_int (group2 m) of
             Inl e \<Rightarrow> Inl e
           | Inr minor \<Rightarrow>
          (case py_int (group3 m) of
             Inl e \<Rightarrow> Inl e
           | Inr patch \<Rightarrow>
          (let prerelease_type = (case group4 m of Some t \<Rightarrow> t | None \<Rightarrow> []) in
           case (case group5 m of Some n \<Rightarrow> py_int n | None \<Rightarrow> Inr 0) of
             Inl e \<Rightarrow> Inl e
           | Inr prerelease_num \<Rightarrow>
               (let prerelease_priority = (if prerelease_type \<noteq> [] then 0 else 1)
                in Inr (PyInt major, minor, patch, prerelease_priority, prerelease_type,
                        prerelease_num))))))
      | None \<Rightarrow> Inr (PyInf, 0, 0, 0, version, 0))"

fun pynum_less :: "pynum \<Rightarrow> pynum \<Rightarrow> bool" where
  "pynum_less (PyInt a) (PyInt b) = (a < b)"
| "pynum_less (PyInt a) PyInf = True"
| "pynum_less PyInf b = False"

fun key_less :: "sort_key \<Rightarrow> sort_key \<Rightarrow> bool" where
  \<comment> \<open>Python's \<open><\<close> on tuples: decided at the first position where the two differ\<close>
  "key_less (a1, b1, c1, d1, e1, f1) (a2, b2, c2, d2, e2, f2) =
     (if a1 \<noteq> a2 then pynum_less a1 a2
      else if b1 \<noteq> b2 then b1 < b2
      else if c1 \<noteq> c2 then c1 < c2
      else if d1 \<noteq> d2 then d1 < d2
      else if e1 \<noteq> e2 then e1 < e2
      else f1 < f2)"

definition parsable :: "string \<Rightarrow> bool" where
  "parsable version = (semver_match (lstrip_v version) \<noteq> None)"

definition has_prerelease :: "string \<Rightarrow> bool" where
  "has_prerelease version =
     (case semver_match (lstrip_v version) of Some m \<Rightarrow> group4 m \<noteq> None | None \<Rightarrow> False)"

definition is_stable :: "string \<Rightarrow> bool" where
  "is_stable version =
     (case semver_match (lstrip_v version) of Some m \<Rightarrow> group4 m = None | None \<Rightarrow> False)"

definition core :: "sort_key \<Rightarrow> pynum \<times> int \<times> int" where
  "core k = (case k of (a, b, c, d, e, f) \<Rightarrow> (a, b, c))"

definition exceeds_limit :: "string \<Rightarrow> bool" where
  \<comment> \<open>the version matches the pattern and one of its numbers has more digits than
      \<open>int\<close> converts\<close>
  "exceeds_limit version =
     (case semver_match (lstrip_v version) of
        None \<Rightarrow> False
      | Some m \<Rightarrow>
          length (group1 m) > int_max_str_digits \<or> length (group2 m) > int_max_str_digits
          \<or> length (group3 m) > int_max_str_digits
          \<or> (case group5 m of Some n \<Rightarrow> length n > int_max_str_digits | None \<Rightarrow> False))"

section \<open>Python dictionaries\<close>

text \<open>
  A \<open>dict\<close> keeps its keys in insertion order: an association list, read with
  \<^const>\<open>map_of\<close>. Assigning to a key that is present replaces its value in place;
  assigning to a new key appends it.
\<close>

fun dict_set :: "('k \<times> 'v) list \<Rightarrow> 'k \<Rightarrow> 'v \<Rightarrow> ('k \<times> 'v) list" where
  "dict_set [] k v = [(k, v)]"
| "dict_set ((k', v') # d) k v =
     (if k' = k then (k, v) # d else (k', v') # dict_set d k v)"

section \<open>Release tracker (nargo\_download\_tracker.py)\<close>

subsection \<open>fetch\_releases\<close>

record 'r response =
  status_code :: nat
  json :: "'r list"

definition max_pages :: nat where
  "max_pages = 10"

definition raise_for_status :: "nat \<Rightarrow> bool" where
  \<comment> \<open>\<open>requests\<close> raises for the client and server error codes\<close>
  "raise_for_status code = (400 \<le> code \<and> code < 600)"

text \<open>
  The loop of \<open>fetch_releases\<close>. The API is a function from the requested page number to
  the response; the list \<open>requested\<close> records the page numbers asked for, in order.
\<close>

function fetch_loop ::
  "(nat \<Rightarrow> 'r response) \<Rightarrow> nat \<Rightarrow> 'r list \<Rightarrow> nat list \<Rightarrow> (error + 'r list) \<times> nat list" where
  "fetch_loop get page releases requested =
     (if page \<le> max_pages then
        (let response = get page; requested' = requested @ [page] in
         if status_code response = 422 then (Inr releases, requested')
         else if raise_for_status (status_code response)
           then (Inl (HTTPError (status_code response)), requested')
         else if json response = [] then (Inr releases, requested')
         else fetch_loop get (page + 1) (releases @ json response) requested')
      else (Inr releases, requested))"
  by pat_completeness auto
termination
  by (relation "measure (\<lambda>(get, page, releases, requested). Suc max_pages - page)") auto

definition fetch_releases :: "(nat \<Rightarrow> 'r response) \<Rightarrow> (error + 'r list) \<times> nat list" where
  "fetch_releases get = fetch_loop get 1 [] []"

definition proceeds :: "'r response \<Rightarrow> bool" where
  \<comment> \<open>the response lets the loop go on to the next page\<close>
  "proceeds response =
     (status_code response \<noteq> 422 \<and> \<not> raise_for_status (status_code response)
      \<and> json response \<noteq> [])"

definition collected :: "(nat \<Rightarrow> 'r response) \<Rightarrow> nat \<Rightarrow> 'r list" where
  \<comment> \<open>the records of the pages before page \<open>k\<close>, in page order\<close>
  "collected get k = concat (map (\<lambda>p. json (get p)) [1..<k])"

subsection \<open>filter\_v1\_releases and extract\_download\_stats\<close>

record asset =
  api_name :: string
  api_download_count :: int
  api_size :: int
  api_browser_download_url :: string

record release =
  tag_name :: string
  assets :: "asset list"

fun startswith :: "string \<Rightarrow> string \<Rightarrow> bool" where
  "startswith s [] = True"
| "startswith [] (p # ps) = False"
| "startswith (c # s) (p # ps) = (c = p \<and> startswith s ps)"

definition filter_v1_releases :: "release list \<Rightarrow> release list" where
  "filter_v1_releases releases =
     [release \<leftarrow> releases. startswith (tag_name release) ''v1.0.0'']"

record stat =
  timestamp :: string
  release_tag :: string
  asset_name :: string
  download_count :: int
  asset_size :: int
  asset_url :: string
  daily_change :: "int option"


subsection \<open>The tabular logs\<close>

text \<open>
  A log file is absent (\<open>None\<close>) or holds the lines written so far. A line is the header,
  with its field names, or a data row.
\<close>

datatype 'r csv_line = Header "string list" | Row 'r

type_synonym 'r csv_file = "'r csv_line list option"

definition file_lines :: "'r csv_file \<Rightarrow> 'r csv_line list" where
  \<comment> \<open>opening in mode \<open>'a'\<close> creates a missing file empty\<close>
  "file_lines file = (case file of None \<Rightarrow> [] | Some ls \<Rightarrow> ls)"

definition keys_of :: "stat \<Rightarrow> string list" where
  \<comment> \<open>\<open>stat.keys()\<close>: \<open>daily_change\<close> is present only once it has been assigned\<close>
  "keys_of s =
     [''timestamp'', ''release_tag'', ''asset_name'', ''download_count'', ''asset_size'',
      ''asset_url''] @ (if daily_change s = None then [] else [''daily_change''])"

definition writable :: "stat \<Rightarrow> stat \<Rightarrow> bool" where
  \<comment> \<open>\<open>DictWriter\<close> raises \<open>ValueError\<close> on a row with a key outside the field names,
      here those of the first row\<close>
  "writable first s = (daily_change s = None \<or> daily_change first \<noteq> None)"

definition save_to_csv :: "stat csv_file \<Rightarrow> stat list \<Rightarrow> stat csv_file \<times> bool" where
  \<comment> \<open>the new file, and whether \<open>writerows\<close> raised\<close>
  "save_to_csv file stats =
     (let file_exists = (file \<noteq> None); csvfile = file_lines file in
      case stats of
        [] \<Rightarrow> (Some csvfile, False)
      | first # _ \<Rightarrow>
          (let csvfile1 = (if \<not> file_exists then csvfile @ [Header (keys_of first)] else csvfile)
           in (Some (csvfile1 @ map Row (takeWhile (writable first) stats)),
               \<not> list_all (writable first) stats)))"

record daily_total_record =
  date :: string
  total_timestamp :: string
  record_total_downloads :: int

definition save_daily_totals_csv ::
  "string \<Rightarrow> string \<Rightarrow> daily_total_record csv_file \<Rightarrow> stat list \<Rightarrow> daily_total_record csv_file"
  where
  \<comment> \<open>the first two arguments are the date and the time stamp taken from the clock\<close>
  "save_daily_totals_csv date_str now file stats =
     (let file_exists = (file \<noteq> None);
          total_downloads = sum_list (map download_count stats);
          daily_total_record = \<lparr>date = date_str, total_timestamp = now,
                                record_total_downloads = total_downloads\<rparr>;
          csvfile = file_lines file;
          csvfile1 = (if \<not> file_exists
                      then csvfile @ [Header [''date'', ''timestamp'', ''total_downloads'']]
                      else csvfile)
      in Some (csvfile1 @ [Row daily_total_record]))"

definition is_header :: "'r csv_line \<Rightarrow> bool" where
  "is_header l = (case l of Header fs \<Rightarrow> True | Row r \<Rightarrow> False)"

subsection \<open>The JSON history\<close>

record release_data =
  release_total_downloads :: int
  release_assets :: "stat list"

definition add_stat :: "(string \<times> release_data) list \<Rightarrow> stat \<Rightarrow> (string \<times> release_data) list"
  where
  \<comment> \<open>one pass of the grouping loop of \<open>save_to_json\<close>\<close>
  "add_stat releases s =
     (let tag = release_tag s;
          releases1 = (if map_of releases tag = None
                       then dict_set releases tag
                              \<lparr>release_total_downloads = 0, release_assets = []\<rparr>
                       else releases)
      in case map_of releases1 tag of
           Some rd \<Rightarrow>
             dict_set releases1 tag
               \<lparr>release_total_downloads = release_total_downloads rd + download_count s,
                release_assets = release_assets rd @ [s]\<rparr>
         | None \<Rightarrow> releases1)"

record day_data =
  total_downloads :: int
  releases :: "(string \<times> release_data) list"

type_synonym history = "(string \<times> day_data) list"

definition day_data_of :: "stat list \<Rightarrow> day_data" where
  "day_data_of stats =
     \<lparr>total_downloads = sum_list (map download_count stats),
      releases = foldl add_stat [] stats\<rparr>"

definition load_history :: "history option \<Rightarrow> history" where
  \<comment> \<open>\<open>history = {}\<close>, replaced by the file's content when the file exists\<close>
  "load_history history_file = (case history_file of None \<Rightarrow> [] | Some h \<Rightarrow> h)"

definition save_to_json :: "string \<Rightarrow> history option \<Rightarrow> stat list \<Rightarrow> history option" where
  \<comment> \<open>the first argument is today's date, \<open>datetime.now().strftime("%Y-%m-%d")\<close>\<close>
  "save_to_json date_str history_file stats =
     Some (dict_set (load_history history_file) date_str (day_data_of stats))"

subsection \<open>calculate\_daily\_changes\<close>

definition stat_key :: "stat \<Rightarrow> string" where
  "stat_key s = release_tag s @ ''_'' @ asset_name s"

definition previous_stats_of :: "day_data \<Rightarrow> (string \<rightharpoonup> int)" where
  "previous_stats_of previous_data =
     foldl (\<lambda>previous_stats (tag, rd).
              foldl (\<lambda>m s. m(stat_key s \<mapsto> download_count s)) previous_stats
                (release_assets rd))
       Map.empty (releases previous_data)"

definition with_change :: "(string \<rightharpoonup> int) \<Rightarrow> stat \<Rightarrow> stat" where
  "with_change previous_stats s =
     (let previous_count = (case previous_stats (stat_key s) of Some c \<Rightarrow> c | None \<Rightarrow> 0)
      in s\<lparr>daily_change := Some (download_count s - previous_count)\<rparr>)"

definition calculate_daily_changes :: "history option \<Rightarrow> stat list \<Rightarrow> stat list" where
  "calculate_daily_changes history_file current_stats =
     (case history_file of
        None \<Rightarrow> current_stats
      | Some history \<Rightarrow>
          (let dates = sort (map fst history) in
           if length dates < 1 then current_stats
           else
             (let previous_date = last dates in
              case map_of history previous_date of
                Some previous_data \<Rightarrow>
                  map (with_change (previous_stats_of previous_data)) current_stats
              | None \<Rightarrow> current_stats)))"

text \<open>
  The last branch is never taken: \<open>previous_date\<close> is one of the keys of \<open>history\<close>.
\<close>

definition release_rows :: "(string \<times> release_data) list \<Rightarrow> stat list" where
  \<comment> \<open>the rows of the releases of an entry, in the order the two nested
      \<open>for\<close> statements of \<open>calculate_daily_changes\<close> visit them\<close>
  "release_rows rels = concat (map (release_assets \<circ> snd) rels)"

definition flat_assets :: "day_data \<Rightarrow> stat list" where
  "flat_assets entry = release_rows (releases entry)"


definition underscore_free :: "string \<Rightarrow> bool" where
  "underscore_free t = (CHR ''_'' \<notin> set t)"

definition no_collision :: "stat list \<Rightarrow> day_data \<Rightarrow> bool" where
  \<comment> \<open>no row shares its lookup key with a row that the entry records for another
      (release tag, asset name) pair\<close>
  "no_collision stats entry =
     list_all (\<lambda>s. list_all (\<lambda>s'. stat_key s' = stat_key s \<longrightarrow>
                            release_tag s' = release_tag s \<and> asset_name s' = asset_name s)
                 (flat_assets entry)) stats"

definition consistent_counts :: "stat list \<Rightarrow> bool" where
  \<comment> \<open>rows that share a lookup key carry the same count\<close>
  "consistent_counts stats =
     list_all (\<lambda>s. list_all (\<lambda>s'. stat_key s' = stat_key s \<longrightarrow>
                            download_count s' = download_count s) stats) stats"








section \<open>Charts (visualize\_downloads.py)\<close>

definition lower_char :: "char \<Rightarrow> char" where
  \<comment> \<open>\<open>str.lower\<close> on one character of the 8-bit range\<close>
  "lower_char c =
     (let n = (of_char c :: nat) in
      if (65 \<le> n \<and> n \<le> 90) \<or> (192 \<le> n \<and> n \<le> 222 \<and> n \<noteq> 215)
      then char_of (n + 32) else c)"

definition lower :: "string \<Rightarrow> string" where
  "lower s = map lower_char s"

fun contains :: "string \<Rightarrow> string \<Rightarrow> bool" where
  \<comment> \<open>\<open>sub in s\<close>\<close>
  "contains sub [] = (sub = [])"
| "contains sub (c # s) = (startswith (c # s) sub \<or> contains sub s)"

definition arch_of :: "string \<Rightarrow> string" where
  "arch_of nm =
     (if contains ''aarch64'' (lower nm) then ''ARM64''
      else if contains ''x86_64'' (lower nm) then ''x86_64''
      else ''Unknown'')"

definition platform_of :: "string \<Rightarrow> string" where
  "platform_of nm =
     (if contains ''linux'' (lower nm) then ''Linux''
      else if contains ''darwin'' (lower nm) \<or> contains ''macos'' (lower nm)
        then ''macOS''
      else if contains ''windows'' (lower nm) \<or> contains ''.exe'' nm
        then ''Windows''
      else ''Other'')"

definition platform_arch :: "string \<Rightarrow> string" where
  "platform_arch nm = platform_of nm @ '' '' @ arch_of nm"

definition add_asset :: "(string \<times> int) list \<Rightarrow> stat \<Rightarrow> (string \<times> int) list" where
  "add_asset asset_groups s =
     (let pa = platform_arch (asset_name s);
          asset_groups1 = (if map_of asset_groups pa = None then dict_set asset_groups pa 0
                           else asset_groups)
      in case map_of asset_groups1 pa of
           Some n \<Rightarrow> dict_set asset_groups1 pa (n + download_count s)
         | None \<Rightarrow> asset_groups1)"

definition release_tags_of :: "day_data \<Rightarrow> string list" where
  \<comment> \<open>\<open>sorted(latest_data['releases'].keys(), reverse=True)[:5]\<close>\<close>
  "release_tags_of latest_data = take 5 (rev (sort (map fst (releases latest_data))))"

definition latest_date_of :: "history \<Rightarrow> string" where
  \<comment> \<open>\<open>max(history.keys())\<close>, of a history that is not empty\<close>
  "latest_date_of h = last (sort (map fst h))"

definition create_asset_breakdown :: "history \<Rightarrow> (string \<times> int) list option" where
  \<comment> \<open>the groups handed to the pie chart; \<open>None\<close> when nothing is drawn\<close>
  "create_asset_breakdown h =
     (if h = [] then None
      else case map_of h (latest_date_of h) of
        None \<Rightarrow> None
      | Some latest_data \<Rightarrow>
          Some (foldl (\<lambda>asset_groups release_tag.
                  case map_of (releases latest_data) release_tag of
                    Some rd \<Rightarrow> foldl add_asset asset_groups (release_assets rd)
                  | None \<Rightarrow> asset_groups)
                [] (release_tags_of latest_data)))"

fun tag_keys :: "string list \<Rightarrow> error + (string \<times> sort_key) list" where
  \<comment> \<open>\<open>sorted\<close> computes the key of every item first, in order; a key that raises ends it\<close>
  "tag_keys [] = Inr []"
| "tag_keys (t # ts) =
     (case parse_semver t of
        Inl e \<Rightarrow> Inl e
      | Inr k \<Rightarrow> (case tag_keys ts of Inl e \<Rightarrow> Inl e | Inr ks \<Rightarrow> Inr ((t, k) # ks)))"

definition semver_sorted_tags :: "day_data \<Rightarrow> error + string list" where
  \<comment> \<open>the release tags in the order of \<open>create_release_breakdown\<close>, oldest to newest:
      \<open>sorted(..., key=lambda x: parse_semver(x[0]))\<close>, a stable sort\<close>
  "semver_sorted_tags latest_data =
     (case tag_keys (map fst (releases latest_data)) of
        Inl e \<Rightarrow> Inl e
      | Inr tks \<Rightarrow>
          Inr (map fst
            (foldr (\<lambda>tk sorted. takeWhile (\<lambda>uk. key_less (snd uk) (snd tk)) sorted
                                @ tk # dropWhile (\<lambda>uk. key_less (snd uk) (snd tk)) sorted)
               tks [])))"

definition csv_runs :: "stat list list \<Rightarrow> stat csv_file \<Rightarrow> stat csv_file" where
  \<comment> \<open>successive runs of \<open>save_to_csv\<close>, one per list of rows; a run that raises leaves
      the file as it has written it\<close>
  "csv_runs runs file = foldl (\<lambda>f stats. fst (save_to_csv f stats)) file runs"

definition daily_runs ::
  "(string \<times> string \<times> stat list) list \<Rightarrow> daily_total_record csv_file \<Rightarrow> daily_total_record csv_file"
  where
  \<comment> \<open>successive runs of \<open>save_daily_totals_csv\<close>, each with its date, time stamp and rows\<close>
  "daily_runs runs file =
     foldl (\<lambda>f (date_str, now, stats). save_daily_totals_csv date_str now f stats) file runs"

definition header_count :: "'r csv_file \<Rightarrow> nat" where
  "header_count file = length (filter is_header (file_lines file))"

definition starts_with_header :: "'r csv_file \<Rightarrow> bool" where
  "starts_with_header file = (case file_lines file of [] \<Rightarrow> False | l # ls \<Rightarrow> is_header l)"

section \<open>Example inputs\<close>

definition two_pages_then_422 :: "nat \<Rightarrow> string response" where
  "two_pages_then_422 p =
     (if p = 1 then \<lparr>status_code = 200, json = [''v1.0.0'', ''v1.0.0-beta.9'']\<rparr>
      else if p = 2 then \<lparr>status_code = 200, json = [''v0.9.0'']\<rparr>
      else \<lparr>status_code = 422, json = []\<rparr>)"

definition row :: "string \<Rightarrow> string \<Rightarrow> int \<Rightarrow> stat" where
  "row tag nm n =
     \<lparr>timestamp = ''2025-01-02T06:00:00'', release_tag = tag, asset_name = nm,
      download_count = n, asset_size = 1, asset_url = [], daily_change = None\<rparr>"

definition two_days :: history where
  "two_days =
     [(''2025-01-01'', day_data_of [row ''v1.0.0'' ''nargo.tar.gz'' 5]),
      (''2025-01-02'', day_data_of [row ''v1.0.0'' ''nargo.tar.gz'' 7])]"

definition six_releases :: history where
  \<comment> \<open>one recorded day holding five betas and the stable release, one asset each\<close>
  "six_releases =
     [(''2025-01-02'',
       day_data_of
         [row ''v1.0.0-beta.1'' ''nargo-x86_64-unknown-linux-gnu.tar.gz'' 1,
          row ''v1.0.0-beta.2'' ''nargo-x86_64-unknown-linux-gnu.tar.gz'' 2,
          row ''v1.0.0-beta.3'' ''nargo-x86_64-unknown-linux-gnu.tar.gz'' 4,
          row ''v1.0.0-beta.4'' ''nargo-x86_64-unknown-linux-gnu.tar.gz'' 8,
          row ''v1.0.0-beta.5'' ''nargo-x86_64-unknown-linux-gnu.tar.gz'' 16,
          row ''v1.0.0'' ''nargo-x86_64-unknown-linux-gnu.tar.gz'' 1000])]"


definition long_major :: string where
  \<comment> \<open>\<open>'v' + '1' * 4301 + '.0.0'\<close>\<close>
  "long_major = CHR ''v'' # replicate 4301 (CHR ''1'') @ ''.0.0''"

section \<open>Properties of the version sort key\<close>

lemma match_prerelease_label_nonempty:
  "match_prerelease r \<noteq> Some (Some [], g5)"
  by (auto simp: match_prerelease_def Let_def split: if_splits list.splits)

lemma semver_match_label_nonempty:
  "semver_match v = Some m \<Longrightarrow> group4 m = Some t \<Longrightarrow> t \<noteq> []"
  by (auto simp: semver_match_def Let_def match_prerelease_label_nonempty
           split: option.splits if_splits)

lemma py_int_cases:
  "(py_int ds = Inl ValueError \<and> length ds > int_max_str_digits)
   \<or> (\<exists>n. py_int ds = Inr n \<and> length ds \<le> int_max_str_digits)"
  by (simp add: py_int_def)

lemma parse_semver_unparsable:
  "\<not> parsable s \<Longrightarrow> parse_semver s = Inr (PyInf, 0, 0, 0, lstrip_v s, 0)"
  by (auto simp: parsable_def parse_semver_def Let_def split: option.splits)

lemma parse_semver_parsable:
  "parsable s \<Longrightarrow> parse_semver s = Inr k \<Longrightarrow> \<exists>a b c d e f. k = (PyInt a, b, c, d, e, f)"
  by (auto simp: parsable_def parse_semver_def Let_def split: option.splits sum.splits)

lemma parse_semver_prerelease:
  assumes "has_prerelease s" and "parse_semver s = Inr k"
  shows "\<exists>a b c t n. t \<noteq> [] \<and> k = (PyInt a, b, c, 0, t, n)"
proof -
  from assms(1) obtain m t where m: "semver_match (lstrip_v s) = Some m" "group4 m = Some t"
    by (auto simp: has_prerelease_def split: option.splits)
  then have "t \<noteq> []" by (rule semver_match_label_nonempty)
  with m assms(2) show ?thesis
    by (auto simp: parse_semver_def Let_def split: sum.splits)
qed

lemma parse_semver_stable:
  assumes "is_stable s" and "parse_semver s = Inr k"
  shows "\<exists>a b c n. k = (PyInt a, b, c, 1, [], n)"
  using assms
  by (auto simp: is_stable_def parse_semver_def Let_def split: option.splits sum.splits)

lemma parse_semver_raises:
  "(parse_semver s = Inl ValueError) = exceeds_limit s"
proof (cases "semver_match (lstrip_v s)")
  case None
  then show ?thesis by (simp add: parse_semver_def exceeds_limit_def)
next
  case (Some m)
  show ?thesis
  proof (cases "group5 m")
    case None
    with Some show ?thesis
      using py_int_cases[of "group1 m"] py_int_cases[of "group2 m"] py_int_cases[of "group3 m"]
      by (auto simp: parse_semver_def exceeds_limit_def Let_def)
  next
    case (Some n)
    with \<open>semver_match (lstrip_v s) = Some m\<close> show ?thesis
      using py_int_cases[of "group1 m"] py_int_cases[of "group2 m"] py_int_cases[of "group3 m"]
        py_int_cases[of n]
      by (auto simp: parse_semver_def exceeds_limit_def Let_def)
  qed
qed

lemma parse_semver_error: "parse_semver s = Inl e \<Longrightarrow> e = ValueError"
  by (auto simp: parse_semver_def py_int_def Let_def split: option.splits sum.splits if_splits)

lemma parse_semver_returns:
  "(\<exists>k. parse_semver s = Inr k) = (\<not> exceeds_limit s)"
proof -
  have "(\<exists>k. parse_semver s = Inr k) = (parse_semver s \<noteq> Inl ValueError)"
    using parse_semver_error[of s] by (cases "parse_semver s") auto
  then show ?thesis by (simp add: parse_semver_raises)
qed

text \<open>
  Claim C1. In the order of the sort keys, \<open>v1.0.0-beta.2\<close> comes strictly before
  \<open>v1.0.0-beta.10\<close>, which comes strictly before \<open>v1.0.0\<close>; and the key of every
  parsable version with a prerelease label is strictly less than the key of a stable
  version with the same major, minor and patch numbers.
\<close>

theorem parse_semver_prerelease_before_stable:
  "parse_semver ''v1.0.0-beta.2'' = Inr (PyInt 1, 0, 0, 0, ''beta'', 2)
   \<and> parse_semver ''v1.0.0-beta.10'' = Inr (PyInt 1, 0, 0, 0, ''beta'', 10)
   \<and> parse_semver ''v1.0.0'' = Inr (PyInt 1, 0, 0, 1, [], 0)
   \<and> key_less (PyInt 1, 0, 0, 0, ''beta'', 2) (PyInt 1, 0, 0, 0, ''beta'', 10)
   \<and> key_less (PyInt 1, 0, 0, 0, ''beta'', 10) (PyInt 1, 0, 0, 1, [], 0)
   \<and> (\<forall>s t ks kt. has_prerelease s \<and> is_stable t
          \<and> parse_semver s = Inr ks \<and> parse_semver t = Inr kt \<and> core ks = core kt
          \<longrightarrow> key_less ks kt)"
proof (intro conjI allI impI)
  show "parse_semver ''v1.0.0-beta.2'' = Inr (PyInt 1, 0, 0, 0, ''beta'', 2)"
    by code_simp
  show "parse_semver ''v1.0.0-beta.10'' = Inr (PyInt 1, 0, 0, 0, ''beta'', 10)"
    by code_simp
  show "parse_semver ''v1.0.0'' = Inr (PyInt 1, 0, 0, 1, [], 0)"
    by code_simp
  show "key_less (PyInt 1, 0, 0, 0, ''beta'', 2) (PyInt 1, 0, 0, 0, ''beta'', 10)"
    by simp
  show "key_less (PyInt 1, 0, 0, 0, ''beta'', 10) (PyInt 1, 0, 0, 1, [], 0)"
    by simp
next
  fix s t ks kt
  assume h: "has_prerelease s \<and> is_stable t
      \<and> parse_semver s = Inr ks \<and> parse_semver t = Inr kt \<and> core ks = core kt"
  from h obtain a b c l n where s: "l \<noteq> []" "ks = (PyInt a, b, c, 0, l, n)"
    using parse_semver_prerelease by blast
  from h obtain a' b' c' n' where t: "kt = (PyInt a', b', c', 1, [], n')"
    using parse_semver_stable by blast
  from h s t show "key_less ks kt"
    by (simp add: core_def)
qed

theorem parse_semver_prerelease_before_stable_witness:
  "has_prerelease ''v2.3.4-rc.1'' \<and> is_stable ''2.3.4''
   \<and> parse_semver ''v2.3.4-rc.1'' = Inr (PyInt 2, 3, 4, 0, ''rc'', 1)
   \<and> parse_semver ''2.3.4'' = Inr (PyInt 2, 3, 4, 1, [], 0)
   \<and> core (PyInt 2, 3, 4, 0, ''rc'', 1) = core (PyInt 2, 3, 4, 1, [], 0)
   \<and> key_less (PyInt 2, 3, 4, 0, ''rc'', 1) (PyInt 2, 3, 4, 1, [], 0)"
proof -
  have h: "has_prerelease ''v2.3.4-rc.1'' \<and> is_stable ''2.3.4''
     \<and> parse_semver ''v2.3.4-rc.1'' = Inr (PyInt 2, 3, 4, 0, ''rc'', 1)
     \<and> parse_semver ''2.3.4'' = Inr (PyInt 2, 3, 4, 1, [], 0)
     \<and> core (PyInt 2, 3, 4, 0, ''rc'', 1) = core (PyInt 2, 3, 4, 1, [], 0)"
    by code_simp
  note general = parse_semver_prerelease_before_stable
    [THEN conjunct2, THEN conjunct2, THEN conjunct2, THEN conjunct2, THEN conjunct2]
  have "key_less (PyInt 2, 3, 4, 0, ''rc'', 1) (PyInt 2, 3, 4, 1, [], 0)"
    by (rule general[rule_format, OF h])
  with h show ?thesis by (simp only: simp_thms)
qed

lemma dropWhile_replicate_append:
  "P x \<Longrightarrow> dropWhile P (replicate n x @ ys) = dropWhile P ys"
  by (induction n) simp_all

lemma takeWhile_replicate_append:
  "P x \<Longrightarrow> takeWhile P (replicate n x @ ys) = replicate n x @ takeWhile P ys"
  by (induction n) simp_all

lemma semver_match_long_major:
  assumes "0 < n"
  shows "semver_match (lstrip_v (CHR ''v'' # replicate n (CHR ''1'') @ ''.0.0''))
     = Some \<lparr>group1 = replicate n (CHR ''1''), group2 = ''0'', group3 = ''0'',
             group4 = None, group5 = None\<rparr>"
proof -
  from assms obtain k where n: "n = Suc k" by (cases n) auto
  have strip: "lstrip_v (CHR ''v'' # replicate n (CHR ''1'') @ ''.0.0'')
      = replicate n (CHR ''1'') @ ''.0.0''"
    by (simp add: lstrip_v_def n)
  have one: "is_digit (CHR ''1'')" by (simp add: is_digit_def)
  have dot: "\<not> is_digit (CHR ''.'')" by (simp add: is_digit_def)
  have tk: "takeWhile is_digit (replicate n (CHR ''1'') @ ''.0.0'') = replicate n (CHR ''1'')"
    using one dot by (simp add: takeWhile_replicate_append)
  have dr: "dropWhile is_digit (replicate n (CHR ''1'') @ ''.0.0'') = ''.0.0''"
    using one dot by (simp add: dropWhile_replicate_append)
  have d1: "dotted_number (replicate n (CHR ''1'') @ ''.0.0'')
      = Some (replicate n (CHR ''1''), ''0.0'')"
    unfolding dotted_number_def Let_def tk dr by (simp add: n)
  have d2: "dotted_number ''0.0'' = Some (''0'', ''0'')"
    by code_simp
  have g3: "takeWhile is_digit ''0'' = ''0''" "dropWhile is_digit ''0'' = []"
    by (simp_all add: is_digit_def)
  have mp: "match_prerelease [] = Some (None, None)"
    by (simp add: match_prerelease_def at_end_def)
  show ?thesis
    by (simp add: strip semver_match_def d1 d2 g3 mp is_digit_def Let_def)
qed

lemma exceeds_limit_long_major: "exceeds_limit long_major"
  unfolding long_major_def exceeds_limit_def
  by (simp add: semver_match_long_major int_max_str_digits_def)

lemma parsable_long_major: "parsable long_major"
  unfolding long_major_def parsable_def
  by (simp add: semver_match_long_major)

lemma exceeds_limit_parsable: "exceeds_limit s \<Longrightarrow> parsable s"
  by (auto simp: exceeds_limit_def parsable_def split: option.splits)

text \<open>
  Claim C7, as stated, fails in two places. A version whose major number has 4301 digits
  matches the pattern, and \<open>int\<close> raises \<open>ValueError\<close> on it: \<open>parse_semver\<close> does raise.
  And two unparsable strings are not ordered by their literal text: the fallback key holds
  the text left after \<open>lstrip('v')\<close>, so that \<open>vx\<close> is less than \<open>w\<close> as text, yet the
  key of \<open>w\<close> is the smaller one.
\<close>

theorem parse_semver_fallback_counterexample:
  "parsable long_major \<and> parse_semver long_major = Inl ValueError
   \<and> \<not> parsable ''vx'' \<and> \<not> parsable ''w'' \<and> (''vx'' :: string) < ''w''
   \<and> parse_semver ''vx'' = Inr (PyInf, 0, 0, 0, ''x'', 0)
   \<and> parse_semver ''w'' = Inr (PyInf, 0, 0, 0, ''w'', 0)
   \<and> \<not> key_less (PyInf, 0, 0, 0, ''x'', 0) (PyInf, 0, 0, 0, ''w'', 0)
   \<and> key_less (PyInf, 0, 0, 0, ''w'', 0) (PyInf, 0, 0, 0, ''x'', 0)"
proof -
  have a: "parsable long_major" by (rule parsable_long_major)
  have b: "parse_semver long_major = Inl ValueError"
    using exceeds_limit_long_major by (simp only: parse_semver_raises)
  have c: "\<not> parsable ''vx'' \<and> \<not> parsable ''w'' \<and> (''vx'' :: string) < ''w''
   \<and> parse_semver ''vx'' = Inr (PyInf, 0, 0, 0, ''x'', 0)
   \<and> parse_semver ''w'' = Inr (PyInf, 0, 0, 0, ''w'', 0)
   \<and> \<not> key_less (PyInf, 0, 0, 0, ''x'', 0) (PyInf, 0, 0, 0, ''w'', 0)
   \<and> key_less (PyInf, 0, 0, 0, ''w'', 0) (PyInf, 0, 0, 0, ''x'', 0)"
    by code_simp
  from a b c show ?thesis by (intro conjI) (simp_all only: simp_thms)
qed

text \<open>
  Claim C7, amended. \<open>parse_semver\<close> returns a sort key for every string except those
  that match the pattern with a number of more than 4300 digits, on which it raises
  \<open>ValueError\<close>. The key of an unparsable string, which is always returned, comes strictly
  after every key returned for a parsable string, and two unparsable strings are ordered
  by their text with the leading \<open>v\<close> characters removed.
\<close>

theorem parse_semver_unparsable_last:
  "(\<forall>s. (\<exists>k. parse_semver s = Inr k) = (\<not> exceeds_limit s))
   \<and> (\<forall>s. exceeds_limit s \<longrightarrow> parsable s \<and> parse_semver s = Inl ValueError)
   \<and> (\<forall>s t ks. parsable s \<and> \<not> parsable t \<and> parse_semver s = Inr ks \<longrightarrow>
         (\<exists>kt. parse_semver t = Inr kt \<and> key_less ks kt \<and> \<not> key_less kt ks))
   \<and> (\<forall>s t. \<not> parsable s \<and> \<not> parsable t \<longrightarrow>
         (\<exists>ks kt. parse_semver s = Inr ks \<and> parse_semver t = Inr kt
            \<and> key_less ks kt = (lstrip_v s < lstrip_v t)))"
proof (intro conjI allI impI)
  fix s
  show "(\<exists>k. parse_semver s = Inr k) = (\<not> exceeds_limit s)"
    by (rule parse_semver_returns)
next
  fix s assume "exceeds_limit s"
  then show "parsable s" by (rule exceeds_limit_parsable)
next
  fix s assume "exceeds_limit s"
  then show "parse_semver s = Inl ValueError" by (simp only: parse_semver_raises)
next
  fix s t ks
  assume h: "parsable s \<and> \<not> parsable t \<and> parse_semver s = Inr ks"
  then obtain a b c d e f where ks: "ks = (PyInt a, b, c, d, e, f)"
    using parse_semver_parsable by blast
  from h have t: "parse_semver t = Inr (PyInf, 0, 0, 0, lstrip_v t, 0)"
    by (simp add: parse_semver_unparsable)
  have "key_less ks (PyInf, 0, 0, 0, lstrip_v t, 0)
      \<and> \<not> key_less (PyInf, 0, 0, 0, lstrip_v t, 0) ks"
    unfolding ks by simp
  with t show "\<exists>kt. parse_semver t = Inr kt \<and> key_less ks kt \<and> \<not> key_less kt ks"
    by blast
next
  fix s t
  assume h: "\<not> parsable s \<and> \<not> parsable t"
  then have s: "parse_semver s = Inr (PyInf, 0, 0, 0, lstrip_v s, 0)"
    and t: "parse_semver t = Inr (PyInf, 0, 0, 0, lstrip_v t, 0)"
    by (simp_all add: parse_semver_unparsable)
  have "key_less (PyInf, 0, 0, 0, lstrip_v s, 0) (PyInf, 0, 0, 0, lstrip_v t, 0)
      = (lstrip_v s < lstrip_v t)"
    by simp
  with s t show "\<exists>ks kt. parse_semver s = Inr ks \<and> parse_semver t = Inr kt
            \<and> key_less ks kt = (lstrip_v s < lstrip_v t)"
    by blast
qed

theorem parse_semver_unparsable_last_witness:
  "exceeds_limit long_major \<and> parsable long_major \<and> parse_semver long_major = Inl ValueError
   \<and> parsable ''v1.0.0'' \<and> \<not> parsable ''nightly'' \<and> \<not> parsable ''vlatest''
   \<and> parse_semver ''v1.0.0'' = Inr (PyInt 1, 0, 0, 1, [], 0)
   \<and> (\<exists>kt. parse_semver ''nightly'' = Inr kt \<and> key_less (PyInt 1, 0, 0, 1, [], 0) kt
          \<and> \<not> key_less kt (PyInt 1, 0, 0, 1, [], 0))
   \<and> (\<exists>ks kt. parse_semver ''vlatest'' = Inr ks \<and> parse_semver ''nightly'' = Inr kt
          \<and> key_less ks kt = (lstrip_v ''vlatest'' < lstrip_v ''nightly''))"
proof -
  note part2 = parse_semver_unparsable_last [THEN conjunct2, THEN conjunct1]
  note part3 = parse_semver_unparsable_last [THEN conjunct2, THEN conjunct2, THEN conjunct1]
  note part4 = parse_semver_unparsable_last [THEN conjunct2, THEN conjunct2, THEN conjunct2]
  have e: "exceeds_limit long_major" by (rule exceeds_limit_long_major)
  from part2[rule_format, OF e]
  have l: "parsable long_major \<and> parse_semver long_major = Inl ValueError" .
  have p: "parsable ''v1.0.0''" and n: "\<not> parsable ''nightly''" and v: "\<not> parsable ''vlatest''"
    by code_simp+
  have k: "parse_semver ''v1.0.0'' = Inr (PyInt 1, 0, 0, 1, [], 0)" by code_simp
  have "parsable ''v1.0.0'' \<and> \<not> parsable ''nightly''
      \<and> parse_semver ''v1.0.0'' = Inr (PyInt 1, 0, 0, 1, [], 0)"
    using p n k by (intro conjI)
  from part3[rule_format, OF this]
  have a: "\<exists>kt. parse_semver ''nightly'' = Inr kt \<and> key_less (PyInt 1, 0, 0, 1, [], 0) kt
          \<and> \<not> key_less kt (PyInt 1, 0, 0, 1, [], 0)" .
  have "\<not> parsable ''vlatest'' \<and> \<not> parsable ''nightly''"
    using v n by (intro conjI)
  from part4[rule_format, OF this]
  have b: "\<exists>ks kt. parse_semver ''vlatest'' = Inr ks \<and> parse_semver ''nightly'' = Inr kt
          \<and> key_less ks kt = (lstrip_v ''vlatest'' < lstrip_v ''nightly'')" .
  show ?thesis
    using e l[THEN conjunct1] l[THEN conjunct2] p n v k a b by (intro conjI)
qed

section \<open>Properties of the release tracker\<close>

declare fetch_loop.simps [simp del]

lemma fetch_loop_spec:
  "page \<le> max_pages \<Longrightarrow>
   \<exists>k. page \<le> k \<and> k \<le> max_pages
     \<and> snd (fetch_loop get page rel req) = req @ [page..<Suc k]
     \<and> (\<forall>p. page \<le> p \<and> p < k \<longrightarrow> proceeds (get p))
     \<and> (k < max_pages \<longrightarrow> \<not> proceeds (get k))
     \<and> fst (fetch_loop get page rel req) =
         (if status_code (get k) = 422 then Inr (rel @ concat (map (\<lambda>p. json (get p)) [page..<k]))
          else if raise_for_status (status_code (get k)) then Inl (HTTPError (status_code (get k)))
          else if json (get k) = [] then Inr (rel @ concat (map (\<lambda>p. json (get p)) [page..<k]))
          else Inr (rel @ concat (map (\<lambda>p. json (get p)) [page..<Suc k])))"
proof (induction get page rel req rule: fetch_loop.induct)
  case (1 get page releases requested)
  show ?case
  proof (cases "proceeds (get page)")
    case False
    then have "fetch_loop get page releases requested =
      ((if status_code (get page) = 422 then Inr releases
        else if raise_for_status (status_code (get page)) then Inl (HTTPError (status_code (get page)))
        else Inr releases), requested @ [page])"
      using "1.prems" by (subst fetch_loop.simps) (auto simp: proceeds_def Let_def)
    with False "1.prems" show ?thesis
      by (intro exI[of _ page]) (auto simp: proceeds_def)
  next
    case True
    then have step: "fetch_loop get page releases requested =
        fetch_loop get (page + 1) (releases @ json (get page)) (requested @ [page])"
      using "1.prems" by (subst fetch_loop.simps) (auto simp: proceeds_def Let_def)
    show ?thesis
    proof (cases "page < max_pages")
      case False
      with "1.prems" have eq: "page = max_pages" by simp
      have "fetch_loop get (page + 1) (releases @ json (get page)) (requested @ [page])
          = (Inr (releases @ json (get page)), requested @ [page])"
        using eq by (subst fetch_loop.simps) simp
      with step True eq show ?thesis
        by (intro exI[of _ page]) (auto simp: proceeds_def)
    next
      case lt: True
      then have le: "page + 1 \<le> max_pages" by simp
      from True have c: "status_code (get page) \<noteq> 422"
        "\<not> raise_for_status (status_code (get page))" "json (get page) \<noteq> []"
        by (auto simp: proceeds_def)
      from "1.IH"[OF "1.prems" refl refl c le]
      obtain k where k: "page + 1 \<le> k" "k \<le> max_pages"
        "snd (fetch_loop get (page + 1) (releases @ json (get page)) (requested @ [page]))
           = (requested @ [page]) @ [page + 1..<Suc k]"
        "\<forall>p. page + 1 \<le> p \<and> p < k \<longrightarrow> proceeds (get p)"
        "k < max_pages \<longrightarrow> \<not> proceeds (get k)"
        "fst (fetch_loop get (page + 1) (releases @ json (get page)) (requested @ [page])) =
         (if status_code (get k) = 422
            then Inr ((releases @ json (get page)) @ concat (map (\<lambda>p. json (get p)) [page + 1..<k]))
          else if raise_for_status (status_code (get k)) then Inl (HTTPError (status_code (get k)))
          else if json (get k) = []
            then Inr ((releases @ json (get page)) @ concat (map (\<lambda>p. json (get p)) [page + 1..<k]))
          else Inr ((releases @ json (get page)) @ concat (map (\<lambda>p. json (get p)) [page + 1..<Suc k])))"
        by blast
      have up1: "[page..<Suc k] = page # [page + 1..<Suc k]"
        using k(1) by (simp add: upt_conv_Cons)
      have up2: "[page..<k] = page # [page + 1..<k]"
        using k(1) by (simp add: upt_conv_Cons)
      have all: "\<forall>p. page \<le> p \<and> p < k \<longrightarrow> proceeds (get p)"
      proof (intro allI impI)
        fix p assume "page \<le> p \<and> p < k"
        then have "p = page \<or> (page + 1 \<le> p \<and> p < k)" by arith
        with True k(4) show "proceeds (get p)" by blast
      qed
      show ?thesis
        apply (rule exI[of _ k])
        using k(1,2,3,5,6) all unfolding step up1 up2 by simp
    qed
  qed
qed

text \<open>
  Claim C2. \<open>fetch_releases\<close> asks for the pages \<open>1, 2, \<dots>, k\<close> in this order, for
  some \<open>k\<close> from 1 to the ceiling of 10, and for no other page. Every page before \<open>k\<close>
  was a non-empty success, and below the ceiling page \<open>k\<close> is what stopped the loop: a
  422 response or an empty page, which both return the releases collected so far as a
  normal result, or another error status, which aborts. A non-empty page \<open>k\<close> is only
  possible at the ceiling, and is included in the result.
\<close>

theorem fetch_releases_pagination:
  "\<exists>k. 1 \<le> k \<and> k \<le> max_pages
     \<and> snd (fetch_releases get) = [1..<Suc k]
     \<and> (\<forall>p. 1 \<le> p \<and> p < k \<longrightarrow> proceeds (get p))
     \<and> (k < max_pages \<longrightarrow> \<not> proceeds (get k))
     \<and> fst (fetch_releases get) =
         (if status_code (get k) = 422 then Inr (collected get k)
          else if raise_for_status (status_code (get k)) then Inl (HTTPError (status_code (get k)))
          else if json (get k) = [] then Inr (collected get k)
          else Inr (collected get (Suc k)))"
proof -
  have "(1::nat) \<le> max_pages" by (simp add: max_pages_def)
  from fetch_loop_spec[OF this, of get "[]" "[]"] show ?thesis
    by (simp only: fetch_releases_def collected_def append_Nil)
qed

theorem fetch_releases_pagination_witness:
  "(1::nat) \<le> 2 \<and> (2::nat) < 3 \<and> proceeds (two_pages_then_422 2)
   \<and> 3 < max_pages \<and> \<not> proceeds (two_pages_then_422 3)
   \<and> snd (fetch_releases two_pages_then_422) = [1, 2, 3]
   \<and> fst (fetch_releases two_pages_then_422) = Inr [''v1.0.0'', ''v1.0.0-beta.9'', ''v0.9.0'']"
proof -
  obtain k where k: "1 \<le> k" "k \<le> max_pages"
      "snd (fetch_releases two_pages_then_422) = [1..<Suc k]"
      "\<forall>p. 1 \<le> p \<and> p < k \<longrightarrow> proceeds (two_pages_then_422 p)"
      "k < max_pages \<longrightarrow> \<not> proceeds (two_pages_then_422 k)"
      "fst (fetch_releases two_pages_then_422) =
         (if status_code (two_pages_then_422 k) = 422 then Inr (collected two_pages_then_422 k)
          else if raise_for_status (status_code (two_pages_then_422 k))
            then Inl (HTTPError (status_code (two_pages_then_422 k)))
          else if json (two_pages_then_422 k) = [] then Inr (collected two_pages_then_422 k)
          else Inr (collected two_pages_then_422 (Suc k)))"
    using fetch_releases_pagination [of two_pages_then_422] by blast
  have run: "snd (fetch_releases two_pages_then_422) = [1, 2, 3]"
    by code_simp
  have "length [1..<Suc k] = length [1, 2, 3 :: nat]"
    using k(3) run by simp
  then have k3: "k = 3" by (simp only: length_upt list.size)
  have c: "collected two_pages_then_422 3 = [''v1.0.0'', ''v1.0.0-beta.9'', ''v0.9.0'']"
    by code_simp
  have m: "3 < max_pages" by (simp add: max_pages_def)
  have s: "status_code (two_pages_then_422 3) = 422" by (simp add: two_pages_then_422_def)
  from k(4) k3 have "proceeds (two_pages_then_422 2)" by simp
  moreover from k(5) k3 m have "\<not> proceeds (two_pages_then_422 3)" by simp
  moreover from k(6) k3 s c
  have "fst (fetch_releases two_pages_then_422) = Inr [''v1.0.0'', ''v1.0.0-beta.9'', ''v0.9.0'']"
    by simp
  ultimately show ?thesis using run m by simp
qed

lemma startswith_iff: "startswith s p \<longleftrightarrow> (\<exists>rest. s = p @ rest)"
  by (induction s p rule: startswith.induct) auto

text \<open>
  Claim C6. \<open>filter_v1_releases\<close> keeps, in their order, exactly the releases whose tag
  is \<open>v1.0.0\<close> followed by any text; of releases tagged \<open>v1.0.0-beta.9\<close>, \<open>v0.9.0\<close>
  and \<open>v1.0.0\<close> it keeps the first and the last.
\<close>

theorem filter_v1_releases_prefix:
  "filter_v1_releases rs
     = filter (\<lambda>release. \<exists>rest. tag_name release = ''v1.0.0'' @ rest) rs
   \<and> filter_v1_releases [r\<lparr>tag_name := ''v1.0.0-beta.9''\<rparr>, r\<lparr>tag_name := ''v0.9.0''\<rparr>,
                         r\<lparr>tag_name := ''v1.0.0''\<rparr>]
     = [r\<lparr>tag_name := ''v1.0.0-beta.9''\<rparr>, r\<lparr>tag_name := ''v1.0.0''\<rparr>]"
proof
  show "filter_v1_releases rs
     = filter (\<lambda>release. \<exists>rest. tag_name release = ''v1.0.0'' @ rest) rs"
    unfolding filter_v1_releases_def by (simp only: startswith_iff)
  show "filter_v1_releases [r\<lparr>tag_name := ''v1.0.0-beta.9''\<rparr>, r\<lparr>tag_name := ''v0.9.0''\<rparr>,
                         r\<lparr>tag_name := ''v1.0.0''\<rparr>]
     = [r\<lparr>tag_name := ''v1.0.0-beta.9''\<rparr>, r\<lparr>tag_name := ''v1.0.0''\<rparr>]"
    by (simp add: filter_v1_releases_def)
qed

text \<open>
  Claim C8. The inference from the asset name gives platform Linux and architecture
  x86\_64 for \<open>noir-x86_64-unknown-linux-gnu.tar.gz\<close>, and platform Windows with
  architecture Unknown for \<open>noir.exe\<close>.
\<close>

theorem platform_arch_examples:
  "platform_of ''noir-x86_64-unknown-linux-gnu.tar.gz'' = ''Linux''
   \<and> arch_of ''noir-x86_64-unknown-linux-gnu.tar.gz'' = ''x86_64''
   \<and> platform_arch ''noir-x86_64-unknown-linux-gnu.tar.gz'' = ''Linux x86_64''
   \<and> platform_of ''noir.exe'' = ''Windows''
   \<and> arch_of ''noir.exe'' = ''Unknown''
   \<and> platform_arch ''noir.exe'' = ''Windows Unknown''"
  by code_simp

lemma map_of_dict_set: "map_of (dict_set d k v) = (map_of d)(k \<mapsto> v)"
  by (induction d k v rule: dict_set.induct) auto

lemma keys_dict_set:
  "map fst (dict_set d k v) = (if k \<in> set (map fst d) then map fst d else map fst d @ [k])"
  by (induction d k v rule: dict_set.induct) auto

text \<open>
  Claim C4. \<open>save_to_json\<close> writes a history in which today's date maps to the entry
  computed from the new rows alone, whatever the file held for that date before, and in
  which every other date maps to what it mapped to before; the dates keep their order,
  today's date being appended when it is new.
\<close>

theorem save_to_json_replaces_date:
  "\<exists>h'. save_to_json date_str history_file stats = Some h'
     \<and> map_of h' date_str = Some (day_data_of stats)
     \<and> (\<forall>d. d \<noteq> date_str \<longrightarrow> map_of h' d = map_of (load_history history_file) d)
     \<and> map fst h' = (if date_str \<in> set (map fst (load_history history_file))
                      then map fst (load_history history_file)
                      else map fst (load_history history_file) @ [date_str])"
  by (simp add: save_to_json_def map_of_dict_set keys_dict_set)

text \<open>
  Claim C10. \<open>calculate_daily_changes\<close> returns as many rows as it was given, and row by
  row, in the same order, the time stamp, release tag, asset name, download count, asset
  size and asset URL of the input: only \<open>daily_change\<close> can differ.
\<close>

theorem calculate_daily_changes_frame:
  "length (calculate_daily_changes history_file current_stats) = length current_stats
   \<and> map timestamp (calculate_daily_changes history_file current_stats) = map timestamp current_stats
   \<and> map release_tag (calculate_daily_changes history_file current_stats) = map release_tag current_stats
   \<and> map asset_name (calculate_daily_changes history_file current_stats) = map asset_name current_stats
   \<and> map download_count (calculate_daily_changes history_file current_stats) = map download_count current_stats
   \<and> map asset_size (calculate_daily_changes history_file current_stats) = map asset_size current_stats
   \<and> map asset_url (calculate_daily_changes history_file current_stats) = map asset_url current_stats"
  by (simp add: calculate_daily_changes_def with_change_def Let_def comp_def
           split: option.splits)

theorem save_to_json_replaces_date_witness:
  "(''2025-01-01'' :: string) \<noteq> ''2025-01-02''
   \<and> (\<exists>h'. save_to_json ''2025-01-02'' (Some two_days) [row ''v1.0.0'' ''nargo.tar.gz'' 9] = Some h'
         \<and> map_of h' ''2025-01-02'' = Some (day_data_of [row ''v1.0.0'' ''nargo.tar.gz'' 9])
         \<and> map_of h' ''2025-01-01'' = Some (day_data_of [row ''v1.0.0'' ''nargo.tar.gz'' 5])
         \<and> map fst h' = [''2025-01-01'', ''2025-01-02''])"
proof -
  have ne: "(''2025-01-01'' :: string) \<noteq> ''2025-01-02''" by simp
  have old: "map_of (load_history (Some two_days)) ''2025-01-01''
      = Some (day_data_of [row ''v1.0.0'' ''nargo.tar.gz'' 5])"
    by (simp add: load_history_def two_days_def)
  have keys: "map fst (load_history (Some two_days)) = [''2025-01-01'', ''2025-01-02'']"
    by (simp add: load_history_def two_days_def)
  from save_to_json_replaces_date
      [of "''2025-01-02''" "Some two_days" "[row ''v1.0.0'' ''nargo.tar.gz'' 9]"]
  obtain h' where h1:
      "save_to_json ''2025-01-02'' (Some two_days) [row ''v1.0.0'' ''nargo.tar.gz'' 9] = Some h'"
    and h2: "map_of h' ''2025-01-02'' = Some (day_data_of [row ''v1.0.0'' ''nargo.tar.gz'' 9])"
    and h3: "\<forall>d. d \<noteq> ''2025-01-02'' \<longrightarrow> map_of h' d = map_of (load_history (Some two_days)) d"
    and h4: "map fst h' = (if ''2025-01-02'' \<in> set (map fst (load_history (Some two_days)))
                      then map fst (load_history (Some two_days))
                      else map fst (load_history (Some two_days)) @ [''2025-01-02''])"
    by (elim exE conjE)
  from h3[rule_format, OF ne] old
  have o: "map_of h' ''2025-01-01'' = Some (day_data_of [row ''v1.0.0'' ''nargo.tar.gz'' 5])"
    by (rule trans)
  have k: "map fst h' = [''2025-01-01'', ''2025-01-02'']"
    unfolding h4 keys by simp
  show ?thesis
    using ne h1 h2 o k by (intro conjI exI[of _ h'])
qed

section \<open>Properties of the tabular logs\<close>

lemma is_header_Row [simp]: "\<not> is_header (Row r)" "is_header (Header fs)"
  by (simp_all add: is_header_def)

lemma filter_header_rows [simp]: "filter is_header (map Row rs) = []"
  by (induction rs) simp_all

lemma header_count_absent: "header_count None = 0"
  by (simp add: header_count_def file_lines_def)

lemma save_to_csv_header_count:
  "header_count (fst (save_to_csv f stats))
     = header_count f + (if f = None \<and> stats \<noteq> [] then 1 else 0)"
  by (cases stats) (auto simp: save_to_csv_def header_count_def file_lines_def Let_def
        split: option.splits)

lemma save_daily_totals_csv_header_count:
  "header_count (save_daily_totals_csv date_str now f stats)
     = header_count f + (if f = None then 1 else 0)"
  by (auto simp: save_daily_totals_csv_def header_count_def file_lines_def Let_def
        split: option.splits)

lemma save_to_csv_exists: "fst (save_to_csv f stats) \<noteq> None"
  by (cases stats) (auto simp: save_to_csv_def Let_def)

lemma save_to_csv_keeps_start:
  "f \<noteq> None \<Longrightarrow> starts_with_header f \<Longrightarrow> starts_with_header (fst (save_to_csv f stats))"
  by (cases stats) (auto simp: save_to_csv_def starts_with_header_def file_lines_def Let_def
        split: option.splits list.splits)

lemma csv_runs_existing:
  "f \<noteq> None \<Longrightarrow> starts_with_header f \<Longrightarrow>
   csv_runs runs f \<noteq> None \<and> starts_with_header (csv_runs runs f)
   \<and> header_count (csv_runs runs f) = header_count f"
proof (induction runs arbitrary: f)
  case Nil
  then show ?case by (simp add: csv_runs_def)
next
  case (Cons stats runs)
  let ?g = "fst (save_to_csv f stats)"
  have "?g \<noteq> None" by (rule save_to_csv_exists)
  moreover have "starts_with_header ?g" using Cons.prems by (rule save_to_csv_keeps_start)
  ultimately have "csv_runs runs ?g \<noteq> None \<and> starts_with_header (csv_runs runs ?g)
     \<and> header_count (csv_runs runs ?g) = header_count ?g"
    by (rule Cons.IH)
  moreover have "header_count ?g = header_count f"
    using Cons.prems(1) by (simp add: save_to_csv_header_count)
  moreover have "csv_runs (stats # runs) f = csv_runs runs ?g"
    by (simp add: csv_runs_def)
  ultimately show ?case by simp
qed

lemma save_to_csv_first:
  "stats \<noteq> [] \<Longrightarrow> starts_with_header (fst (save_to_csv None stats))"
  by (cases stats) (auto simp: save_to_csv_def starts_with_header_def file_lines_def Let_def)

lemma csv_runs_from_absent:
  assumes "stats \<noteq> []"
  shows "starts_with_header (csv_runs (stats # runs) None)
         \<and> header_count (csv_runs (stats # runs) None) = 1"
proof -
  let ?g = "fst (save_to_csv None stats)"
  have e: "?g \<noteq> None" by (rule save_to_csv_exists)
  have s: "starts_with_header ?g" using assms by (rule save_to_csv_first)
  have c: "header_count ?g = 1"
    using assms by (simp add: save_to_csv_header_count header_count_absent)
  have "csv_runs (stats # runs) None = csv_runs runs ?g" by (simp add: csv_runs_def)
  with csv_runs_existing[OF e s, of runs] c show ?thesis by simp
qed

lemma save_daily_keeps_start:
  "f \<noteq> None \<Longrightarrow> starts_with_header f \<Longrightarrow>
   starts_with_header (save_daily_totals_csv date_str now f stats)"
  by (auto simp: save_daily_totals_csv_def starts_with_header_def file_lines_def Let_def
        split: option.splits list.splits)

lemma save_daily_exists: "save_daily_totals_csv date_str now f stats \<noteq> None"
  by (simp add: save_daily_totals_csv_def Let_def)

lemma daily_runs_existing:
  "f \<noteq> None \<Longrightarrow> starts_with_header f \<Longrightarrow>
   starts_with_header (daily_runs runs f)
   \<and> header_count (daily_runs runs f) = header_count f"
proof (induction runs arbitrary: f)
  case Nil
  then show ?case by (simp add: daily_runs_def)
next
  case (Cons run runs)
  obtain d n stats where run: "run = (d, n, stats)" by (cases run) auto
  let ?g = "save_daily_totals_csv d n f stats"
  have "?g \<noteq> None" by (rule save_daily_exists)
  moreover have "starts_with_header ?g" using Cons.prems by (rule save_daily_keeps_start)
  ultimately have "starts_with_header (daily_runs runs ?g)
     \<and> header_count (daily_runs runs ?g) = header_count ?g"
    by (rule Cons.IH)
  moreover have "header_count ?g = header_count f"
    using Cons.prems(1) by (simp add: save_daily_totals_csv_header_count)
  moreover have "daily_runs (run # runs) f = daily_runs runs ?g"
    by (simp add: daily_runs_def run)
  ultimately show ?case by simp
qed

lemma daily_runs_from_absent:
  "starts_with_header (daily_runs (run # runs) None)
   \<and> header_count (daily_runs (run # runs) None) = 1"
proof -
  obtain d n stats where run: "run = (d, n, stats)" by (cases run) auto
  let ?g = "save_daily_totals_csv d n None stats"
  have e: "?g \<noteq> None" by (rule save_daily_exists)
  have s: "starts_with_header ?g"
    by (simp add: save_daily_totals_csv_def starts_with_header_def file_lines_def Let_def)
  have c: "header_count ?g = 1"
    by (simp add: save_daily_totals_csv_header_count header_count_absent)
  have "daily_runs (run # runs) None = daily_runs runs ?g" by (simp add: daily_runs_def run)
  with daily_runs_existing[OF e s, of runs] c show ?thesis by simp
qed

text \<open>
  Claim C9, amended. \<open>save_daily_totals_csv\<close> writes the header on a call exactly when
  the file does not exist yet, so after any runs that start without the file, the file
  begins with the header and holds it once. \<open>save_to_csv\<close> writes the header on a call
  exactly when the file does not exist yet and the call has at least one row; when the
  run that creates the file has at least one row, the file begins with the header and
  holds it once, over any later runs.
\<close>

theorem csv_header_written_once:
  "header_count (save_daily_totals_csv date_str now dfile stats)
     = header_count dfile + (if dfile = None then 1 else 0)
   \<and> (\<forall>run runs. starts_with_header (daily_runs (run # runs) None)
                  \<and> header_count (daily_runs (run # runs) None) = 1)
   \<and> header_count (fst (save_to_csv f stats))
     = header_count f + (if f = None \<and> stats \<noteq> [] then 1 else 0)
   \<and> (\<forall>first runs. first \<noteq> [] \<longrightarrow>
          starts_with_header (csv_runs (first # runs) None)
          \<and> header_count (csv_runs (first # runs) None) = 1)"
  using save_daily_totals_csv_header_count daily_runs_from_absent save_to_csv_header_count
    csv_runs_from_absent
  by (intro conjI allI impI) auto

text \<open>
  Claim C9, as stated, fails for the per-asset log: a first run without rows creates the
  file empty and writes no header, and since the file then exists, no later run writes
  one.
\<close>

theorem csv_header_counterexample:
  "save_to_csv None [] = (Some [], False)
   \<and> csv_runs [[], [row ''v1.0.0'' ''nargo.tar.gz'' 5]] None
       = Some [Row (row ''v1.0.0'' ''nargo.tar.gz'' 5)]
   \<and> header_count (csv_runs [[], [row ''v1.0.0'' ''nargo.tar.gz'' 5]] None) = 0
   \<and> \<not> starts_with_header (csv_runs [[], [row ''v1.0.0'' ''nargo.tar.gz'' 5]] None)"
  by (simp add: csv_runs_def save_to_csv_def file_lines_def header_count_def
        starts_with_header_def writable_def row_def Let_def)

theorem csv_header_written_once_witness:
  "[row ''v1.0.0'' ''nargo.tar.gz'' 5] \<noteq> []
   \<and> starts_with_header
        (csv_runs ([row ''v1.0.0'' ''nargo.tar.gz'' 5] # [[], [row ''v1.0.0'' ''nargo.tar.gz'' 7]]) None)
   \<and> header_count
        (csv_runs ([row ''v1.0.0'' ''nargo.tar.gz'' 5] # [[], [row ''v1.0.0'' ''nargo.tar.gz'' 7]]) None)
       = 1"
proof -
  have ne: "[row ''v1.0.0'' ''nargo.tar.gz'' 5] \<noteq> []" by simp
  note all = csv_header_written_once
    [of "[]" "[]" None "[]" None, THEN conjunct2, THEN conjunct2, THEN conjunct2]
  have both: "starts_with_header
        (csv_runs ([row ''v1.0.0'' ''nargo.tar.gz'' 5] # [[], [row ''v1.0.0'' ''nargo.tar.gz'' 7]]) None)
     \<and> header_count
        (csv_runs ([row ''v1.0.0'' ''nargo.tar.gz'' 5] # [[], [row ''v1.0.0'' ''nargo.tar.gz'' 7]]) None)
       = 1"
    by (rule all[rule_format, OF ne])
  show ?thesis
    using ne both by (rule conjI)
qed

section \<open>Properties of the charts\<close>

text \<open>
  Claim C5 at a concrete history. The latest day records the releases \<open>v1.0.0-beta.1\<close>
  to \<open>v1.0.0-beta.5\<close> and \<open>v1.0.0\<close>. The pie chart takes the five tags that are greatest
  as text, which are the five betas: it counts the 31 downloads of the betas and leaves
  out the 1000 downloads of \<open>v1.0.0\<close>, the newest release in the order that
  \<open>create_release_breakdown\<close> sorts by.
\<close>

theorem asset_breakdown_skips_newest_release:
  "map_of six_releases (latest_date_of six_releases)
     = Some (day_data_of
         [row ''v1.0.0-beta.1'' ''nargo-x86_64-unknown-linux-gnu.tar.gz'' 1,
          row ''v1.0.0-beta.2'' ''nargo-x86_64-unknown-linux-gnu.tar.gz'' 2,
          row ''v1.0.0-beta.3'' ''nargo-x86_64-unknown-linux-gnu.tar.gz'' 4,
          row ''v1.0.0-beta.4'' ''nargo-x86_64-unknown-linux-gnu.tar.gz'' 8,
          row ''v1.0.0-beta.5'' ''nargo-x86_64-unknown-linux-gnu.tar.gz'' 16,
          row ''v1.0.0'' ''nargo-x86_64-unknown-linux-gnu.tar.gz'' 1000])
   \<and> release_tags_of (snd (hd six_releases))
     = [''v1.0.0-beta.5'', ''v1.0.0-beta.4'', ''v1.0.0-beta.3'', ''v1.0.0-beta.2'',
        ''v1.0.0-beta.1'']
   \<and> semver_sorted_tags (snd (hd six_releases))
     = Inr [''v1.0.0-beta.1'', ''v1.0.0-beta.2'', ''v1.0.0-beta.3'', ''v1.0.0-beta.4'',
            ''v1.0.0-beta.5'', ''v1.0.0'']
   \<and> create_asset_breakdown six_releases = Some [(''Linux x86_64'', 31)]"
  by code_simp

section \<open>Properties of the daily change\<close>




lemma split_at_separator:
  "x \<notin> set t1 \<Longrightarrow> x \<notin> set t2 \<Longrightarrow> t1 @ x # n1 = t2 @ x # n2 \<Longrightarrow> t1 = t2 \<and> n1 = n2"
proof (induction t1 arbitrary: t2)
  case Nil
  then show ?case by (cases t2) auto
next
  case (Cons c t1)
  then show ?case by (cases t2) auto
qed

lemma stat_key_eq_iff:
  assumes "underscore_free (release_tag s)" and "underscore_free (release_tag s')"
  shows "(stat_key s' = stat_key s)
     = (release_tag s' = release_tag s \<and> asset_name s' = asset_name s)"
proof
  assume "stat_key s' = stat_key s"
  then have "release_tag s' @ CHR ''_'' # asset_name s' = release_tag s @ CHR ''_'' # asset_name s"
    by (simp only: stat_key_def append_Cons append_Nil)
  with assms show "release_tag s' = release_tag s \<and> asset_name s' = asset_name s"
    unfolding underscore_free_def by (intro split_at_separator)
next
  assume "release_tag s' = release_tag s \<and> asset_name s' = asset_name s"
  then show "stat_key s' = stat_key s" by (simp only: stat_key_def)
qed


lemma underscore_free_no_collision:
  assumes "list_all (\<lambda>s. underscore_free (release_tag s)) (stats @ flat_assets entry)"
  shows "no_collision stats entry"
  unfolding no_collision_def list_all_iff
proof (intro ballI impI)
  fix s s' assume "s \<in> set stats" "s' \<in> set (flat_assets entry)"
    and k: "stat_key s' = stat_key s"
  with assms have "underscore_free (release_tag s)" "underscore_free (release_tag s')"
    by (simp_all add: list_all_iff)
  then have "(stat_key s' = stat_key s)
      = (release_tag s' = release_tag s \<and> asset_name s' = asset_name s)"
    by (rule stat_key_eq_iff)
  with k show "release_tag s' = release_tag s \<and> asset_name s' = asset_name s"
    by (simp only:)
qed












lemma distinct_keys_consistent:
  "distinct (map stat_key stats) \<Longrightarrow> consistent_counts stats"
proof -
  assume "distinct (map stat_key stats)"
  then have inj: "inj_on stat_key (set stats)" by (simp add: distinct_map)
  show ?thesis
    unfolding consistent_counts_def list_all_iff
  proof (intro ballI impI)
    fix s s' assume "s \<in> set stats" "s' \<in> set stats" "stat_key s' = stat_key s"
    with inj have "s' = s" by (meson inj_onD)
    then show "download_count s' = download_count s" by (simp only:)
  qed
qed
















end
